theory Spec2Isabelle
  imports
    Complex_Main
    "HOL-Library.Char_ord"
    "HOL-Library.List_Lexorder"
    "HOL-Library.Product_Lexorder"
begin

section \<open>TrueNAS Fleet Monitor: the metric log, its decoders and its views\<close>

text \<open>
  The backend (\<^verbatim>\<open>backend.py\<close>) keeps three SQLite tables, \<^verbatim>\<open>systems\<close>,
  \<^verbatim>\<open>metrics\<close> and \<^verbatim>\<open>alerts\<close>, and serves views computed from them. The tables
  are modelled as lists of records in rowid order, every endpoint as a function of the
  database (and of the clock, where the SQL reads \<^verbatim>\<open>'now'\<close>).

  Conventions of the model:
  \<^item> text columns are \<open>string\<close>; a nullable column is an \<open>option\<close>;
  \<^item> a \<^verbatim>\<open>TIMESTAMP\<close> column holds \<^verbatim>\<open>CURRENT_TIMESTAMP\<close>, the text
    \<^verbatim>\<open>YYYY-MM-DD HH:MM:SS\<close>; SQLite compares it with \<^verbatim>\<open>datetime('now', ...)\<close>, a text
    of the same shape, so the comparison of the texts is the comparison of the instants in
    whole seconds. A timestamp is therefore an \<open>int\<close>, the seconds since the epoch;
  \<^item> the \<^verbatim>\<open>REAL\<close> column \<^verbatim>\<open>value\<close> is a \<open>real\<close>: the views only compare it with
    constants;
  \<^item> the \<^verbatim>\<open>metadata\<close> column is the JSON text of a dict and is kept as that text
    (the views' \<^verbatim>\<open>json.loads\<close> is not modelled).
\<close>

subsection \<open>Tables\<close>

record system_row =
  s_id :: string
  s_name :: string
  s_hostname :: "string option"
  s_version :: "string option"
  s_last_seen :: int
  s_client_name :: "string option"

record metric_row =
  m_id :: int
  m_system_id :: string
  m_timestamp :: int
  m_metric_type :: string
  m_metric_name :: string
  m_value :: real
  m_unit :: "string option"
  m_metadata :: "string option"

record alert_row =
  a_id :: int
  a_system_id :: string
  a_timestamp :: int
  a_severity :: string
  a_message :: string
  a_acknowledged :: bool
  a_ticket_id :: "string option"

text \<open>
  \<open>metrics_seq\<close> and \<open>alerts_seq\<close> are the \<^verbatim>\<open>sqlite_sequence\<close> entries of the two
  \<^verbatim>\<open>AUTOINCREMENT\<close> keys: the largest rowid handed out so far.
\<close>

record db =
  systems :: "system_row list"
  metrics :: "metric_row list"
  alerts :: "alert_row list"
  metrics_seq :: int
  alerts_seq :: int

datatype error = NotFound | RangeError | DatabaseError | TypeError

subsection \<open>Key decoders\<close>

text \<open>Python's \<^verbatim>\<open>s.rsplit('_', 1)\<close> and \<^verbatim>\<open>s.split('_', 1)\<close>.\<close>

definition rsplit1 :: "string \<Rightarrow> string list" where
  "rsplit1 s =
     (if CHR ''_'' \<in> set s
      then [rev (tl (dropWhile (\<lambda>c. c \<noteq> CHR ''_'') (rev s))),
            rev (takeWhile (\<lambda>c. c \<noteq> CHR ''_'') (rev s))]
      else [s])"

definition split1 :: "string \<Rightarrow> string list" where
  "split1 s =
     (if CHR ''_'' \<in> set s
      then [takeWhile (\<lambda>c. c \<noteq> CHR ''_'') s, tl (dropWhile (\<lambda>c. c \<noteq> CHR ''_'') s)]
      else [s])"

text \<open>
  \<^verbatim>\<open>get_system_disks\<close> and \<^verbatim>\<open>get_all_disks\<close>:
  \<^verbatim>\<open>parts = m['metric_name'].rsplit('_', 1)\<close>, then
  \<^verbatim>\<open>if len(parts) == 2: disk_id, attr = parts  else: disk_id = name; attr = 'value'\<close>.
\<close>

definition decode_disk :: "string \<Rightarrow> string \<times> string" where
  "decode_disk metric_name =
     (case rsplit1 metric_name of
        [disk_id, attr] \<Rightarrow> (disk_id, attr)
      | _ \<Rightarrow> (metric_name, ''value''))"

text \<open>\<^verbatim>\<open>get_system_replication\<close> and \<^verbatim>\<open>get_all_replication\<close>: the same lines for a task.\<close>

definition decode_task :: "string \<Rightarrow> string \<times> string" where
  "decode_task metric_name =
     (case rsplit1 metric_name of
        [task_id, attr] \<Rightarrow> (task_id, attr)
      | _ \<Rightarrow> (metric_name, ''value''))"

text \<open>
  \<^verbatim>\<open>get_system_pools\<close>: \<^verbatim>\<open>parts = m['metric_name'].split('_', 1)\<close>, then
  \<^verbatim>\<open>if len(parts) >= 1: pool_name = parts[0]; attr = parts[1] if len(parts) > 1 else 'value'\<close>
  \<^verbatim>\<open>else: pool_name = name; attr = 'value'\<close>.
\<close>

definition decode_pool :: "string \<Rightarrow> string \<times> string" where
  "decode_pool metric_name =
     (case split1 metric_name of
        [] \<Rightarrow> (metric_name, ''value'')
      | pool_name # rest \<Rightarrow> (pool_name, (case rest of [] \<Rightarrow> ''value'' | attr # _ \<Rightarrow> attr)))"

text \<open>\<^verbatim>\<open>get_all_pools\<close> repeats the lines of \<^verbatim>\<open>get_system_pools\<close>.\<close>

definition decode_pool_fleet :: "string \<Rightarrow> string \<times> string" where
  "decode_pool_fleet metric_name =
     (case split1 metric_name of
        [] \<Rightarrow> (metric_name, ''value'')
      | pool_name # rest \<Rightarrow> (pool_name, (case rest of [] \<Rightarrow> ''value'' | attr # _ \<Rightarrow> attr)))"

subsection \<open>Connections and transactions\<close>

text \<open>
  Every endpoint opens its own \<^verbatim>\<open>sqlite3.connect(DB_PATH)\<close>. With the module's default
  isolation level the first \<^verbatim>\<open>INSERT\<close> or \<^verbatim>\<open>UPDATE\<close> opens a transaction, every later
  statement of the connection runs inside it, and only \<^verbatim>\<open>conn.commit()\<close> publishes it. A
  connection is therefore the committed database together with the connection's own
  pending view of it. When the handler is left, by \<^verbatim>\<open>return\<close> or by an exception, the
  connection goes away and what stays is the committed database (\<open>close\<close>).

  A statement can raise \<^verbatim>\<open>sqlite3.Error\<close> (a locked or full database). The oracle
  \<open>fails\<close> says which statements of a request do: \<open>fails k\<close> holds when the \<open>k\<close>-th
  \<^verbatim>\<open>execute\<close> or \<^verbatim>\<open>commit\<close> of the request raises. A raised exception is returned as
  \<open>Some e\<close> next to the connection as the exception found it.
\<close>

record connection =
  committed :: db
  pending :: db

definition connect :: "db \<Rightarrow> connection" where
  "connect d = \<lparr>committed = d, pending = d\<rparr>"

definition execute :: "(nat \<Rightarrow> bool) \<Rightarrow> nat \<Rightarrow> (db \<Rightarrow> db) \<Rightarrow> connection \<Rightarrow> error option \<times> connection" where
  "execute fails k stmt conn =
     (if fails k then (Some DatabaseError, conn)
      else (None, conn\<lparr>pending := stmt (pending conn)\<rparr>))"

definition commit :: "(nat \<Rightarrow> bool) \<Rightarrow> nat \<Rightarrow> connection \<Rightarrow> error option \<times> connection" where
  "commit fails k conn =
     (if fails k then (Some DatabaseError, conn)
      else (None, conn\<lparr>committed := pending conn\<rparr>))"

definition close :: "connection \<Rightarrow> db" where
  "close conn = committed conn"

subsection \<open>Ingestion: \<^verbatim>\<open>receive_metrics\<close>\<close>

text \<open>
  The pydantic models of the webhook payload. \<^verbatim>\<open>metrics\<close> and \<^verbatim>\<open>alerts\<close> are
  \<^verbatim>\<open>Optional[List[...]] = []\<close>: a payload may carry \<^verbatim>\<open>null\<close> for either. The
  \<^verbatim>\<open>metadata\<close> dict is represented by its JSON text, the empty dict by \<^verbatim>\<open>{}\<close>.
\<close>

record SystemInfo =
  si_id :: string
  si_name :: string
  si_hostname :: "string option"
  si_version :: "string option"
  si_client_name :: "string option"

record MetricData =
  md_system_id :: string
  md_metric_type :: string
  md_metric_name :: string
  md_value :: real
  md_unit :: "string option"
  md_metadata :: "string option"

record AlertData =
  ad_system_id :: string
  ad_severity :: string
  ad_message :: string

record WebhookPayload =
  p_system :: SystemInfo
  p_metrics :: "MetricData list option"
  p_alerts :: "AlertData list option"

record ingest_response =
  metrics_received :: nat
  alerts_received :: nat

text \<open>
  \<^verbatim>\<open>INSERT INTO systems (...) VALUES (...) ON CONFLICT(id) DO UPDATE SET name = excluded.name, ...\<close>
  with \<^verbatim>\<open>last_seen = datetime.utcnow()\<close>: every column but the key is overwritten.
\<close>

definition system_row_of :: "int \<Rightarrow> SystemInfo \<Rightarrow> system_row" where
  "system_row_of now s =
     \<lparr>s_id = si_id s, s_name = si_name s, s_hostname = si_hostname s,
      s_version = si_version s, s_last_seen = now, s_client_name = si_client_name s\<rparr>"

definition upsert_system :: "int \<Rightarrow> SystemInfo \<Rightarrow> db \<Rightarrow> db" where
  "upsert_system now s d =
     (if si_id s \<in> set (map s_id (systems d))
      then d\<lparr>systems := map (\<lambda>r. if s_id r = si_id s then system_row_of now s else r) (systems d)\<rparr>
      else d\<lparr>systems := systems d @ [system_row_of now s]\<rparr>)"

text \<open>
  \<^verbatim>\<open>INSERT INTO metrics (system_id, metric_type, metric_name, value, unit, metadata)\<close> with
  the values \<^verbatim>\<open>metric.system_id, ..., json.dumps(metric.metadata) if metric.metadata else None\<close>;
  \<^verbatim>\<open>id\<close> is the next \<^verbatim>\<open>AUTOINCREMENT\<close> value and \<^verbatim>\<open>timestamp\<close> defaults to
  \<^verbatim>\<open>CURRENT_TIMESTAMP\<close>. An empty dict is falsy in Python, so it is stored as \<^verbatim>\<open>NULL\<close>.
  The table declares \<^verbatim>\<open>FOREIGN KEY (system_id) REFERENCES systems(id)\<close>, which SQLite
  checks only under \<^verbatim>\<open>PRAGMA foreign_keys = ON\<close>; the backend never issues it, so the
  insert does not look at the \<^verbatim>\<open>systems\<close> table.
\<close>

definition metric_row_of :: "int \<Rightarrow> int \<Rightarrow> MetricData \<Rightarrow> metric_row" where
  "metric_row_of now i m =
     \<lparr>m_id = i, m_system_id = md_system_id m, m_timestamp = now,
      m_metric_type = md_metric_type m, m_metric_name = md_metric_name m,
      m_value = md_value m, m_unit = md_unit m,
      m_metadata = (case md_metadata m of
                      None \<Rightarrow> None
                    | Some j \<Rightarrow> if j = ''{}'' then None else Some j)\<rparr>"

definition insert_metric :: "int \<Rightarrow> MetricData \<Rightarrow> db \<Rightarrow> db" where
  "insert_metric now m d =
     d\<lparr>metrics := metrics d @ [metric_row_of now (metrics_seq d + 1) m],
       metrics_seq := metrics_seq d + 1\<rparr>"

text \<open>
  \<^verbatim>\<open>INSERT INTO alerts (system_id, severity, message)\<close>: \<^verbatim>\<open>acknowledged\<close> defaults to
  \<^verbatim>\<open>FALSE\<close>, \<^verbatim>\<open>ticket_id\<close> to \<^verbatim>\<open>NULL\<close>.
\<close>

definition alert_row_of :: "int \<Rightarrow> int \<Rightarrow> AlertData \<Rightarrow> alert_row" where
  "alert_row_of now i a =
     \<lparr>a_id = i, a_system_id = ad_system_id a, a_timestamp = now,
      a_severity = ad_severity a, a_message = ad_message a,
      a_acknowledged = False, a_ticket_id = None\<rparr>"

definition insert_alert :: "int \<Rightarrow> AlertData \<Rightarrow> db \<Rightarrow> db" where
  "insert_alert now a d =
     d\<lparr>alerts := alerts d @ [alert_row_of now (alerts_seq d + 1) a],
       alerts_seq := alerts_seq d + 1\<rparr>"

text \<open>The two \<^verbatim>\<open>for\<close> statements; \<open>k\<close> counts the statements of the request.\<close>

fun insert_metrics ::
  "(nat \<Rightarrow> bool) \<Rightarrow> nat \<Rightarrow> int \<Rightarrow> MetricData list \<Rightarrow> connection \<Rightarrow> error option \<times> connection" where
  "insert_metrics fails k now [] conn = (None, conn)"
| "insert_metrics fails k now (m # ms) conn =
     (case execute fails k (insert_metric now m) conn of
        (Some e, conn') \<Rightarrow> (Some e, conn')
      | (None, conn') \<Rightarrow> insert_metrics fails (Suc k) now ms conn')"

fun insert_alerts ::
  "(nat \<Rightarrow> bool) \<Rightarrow> nat \<Rightarrow> int \<Rightarrow> AlertData list \<Rightarrow> connection \<Rightarrow> error option \<times> connection" where
  "insert_alerts fails k now [] conn = (None, conn)"
| "insert_alerts fails k now (a # as) conn =
     (case execute fails k (insert_alert now a) conn of
        (Some e, conn') \<Rightarrow> (Some e, conn')
      | (None, conn') \<Rightarrow> insert_alerts fails (Suc k) now as conn')"

text \<open>
  \<^verbatim>\<open>receive_metrics\<close>: the upsert, the metric loop, the alert loop, then the one
  \<^verbatim>\<open>conn.commit()\<close>. Iterating over \<^verbatim>\<open>None\<close> raises \<^verbatim>\<open>TypeError\<close>. The clock is read
  as \<open>now\<close> for the whole request.
\<close>

definition receive_metrics ::
  "(nat \<Rightarrow> bool) \<Rightarrow> int \<Rightarrow> db \<Rightarrow> WebhookPayload \<Rightarrow> (error + ingest_response) \<times> db" where
  "receive_metrics fails now d payload =
     (case execute fails 0 (upsert_system now (p_system payload)) (connect d) of
        (Some e, c1) \<Rightarrow> (Inl e, close c1)
      | (None, c1) \<Rightarrow>
     (case p_metrics payload of
        None \<Rightarrow> (Inl TypeError, close c1)
      | Some ms \<Rightarrow>
     (case insert_metrics fails 1 now ms c1 of
        (Some e, c2) \<Rightarrow> (Inl e, close c2)
      | (None, c2) \<Rightarrow>
     (case p_alerts payload of
        None \<Rightarrow> (Inl TypeError, close c2)
      | Some as \<Rightarrow>
     (case insert_alerts fails (1 + length ms) now as c2 of
        (Some e, c3) \<Rightarrow> (Inl e, close c3)
      | (None, c3) \<Rightarrow>
     (case commit fails (1 + length ms + length as) c3 of
        (Some e, c4) \<Rightarrow> (Inl e, close c4)
      | (None, c4) \<Rightarrow>
          (Inr \<lparr>metrics_received = length ms, alerts_received = length as\<rparr>, close c4)))))))"

subsection \<open>Alert operations\<close>

text \<open>
  \<^verbatim>\<open>acknowledge_alert\<close>: \<^verbatim>\<open>UPDATE alerts SET acknowledged = TRUE WHERE id = ?\<close>; when
  \<^verbatim>\<open>cursor.rowcount == 0\<close> the connection is closed without a commit and
  \<^verbatim>\<open>HTTPException(404)\<close> is raised, otherwise the update is committed. SQLite counts
  the rows the \<^verbatim>\<open>WHERE\<close> clause matches, changed or not.
\<close>

definition rowcount :: "int \<Rightarrow> db \<Rightarrow> nat" where
  "rowcount alert_id d = length (filter (\<lambda>a. a_id a = alert_id) (alerts d))"

definition set_acknowledged :: "int \<Rightarrow> db \<Rightarrow> db" where
  "set_acknowledged alert_id d =
     d\<lparr>alerts := map (\<lambda>a. if a_id a = alert_id then a\<lparr>a_acknowledged := True\<rparr> else a) (alerts d)\<rparr>"

definition acknowledge_alert :: "db \<Rightarrow> int \<Rightarrow> (error + int) \<times> db" where
  "acknowledge_alert d alert_id =
     (let conn = connect d;
          n = rowcount alert_id (pending conn);
          conn = conn\<lparr>pending := set_acknowledged alert_id (pending conn)\<rparr>
      in if n = 0
         then (Inl NotFound, close conn)
         else (Inr alert_id, close (conn\<lparr>committed := pending conn\<rparr>)))"

text \<open>Python's \<^verbatim>\<open>str.upper()\<close> on ASCII text and \<^verbatim>\<open>str(n)\<close> of an integer.\<close>

definition upper_char :: "char \<Rightarrow> char" where
  "upper_char c =
     (let n = (of_char c :: nat) in if 97 \<le> n \<and> n \<le> 122 then char_of (n - 32) else c)"

function str_nat :: "nat \<Rightarrow> string" where
  "str_nat n =
     (if n < 10 then [char_of (48 + n)] else str_nat (n div 10) @ [char_of (48 + n mod 10)])"
  by pat_completeness auto
termination
  by (relation "measure (\<lambda>n. n)") auto

definition str_int :: "int \<Rightarrow> string" where
  "str_int i = (if i < 0 then ''-'' @ str_nat (nat (- i)) else str_nat (nat i))"

text \<open>
  \<^verbatim>\<open>create_ticket\<close>: the mock ticket id is \<^verbatim>\<open>f"{ticket.psa.upper()}-{alert_id}-001"\<close>, then
  \<^verbatim>\<open>UPDATE alerts SET ticket_id = ?, acknowledged = TRUE WHERE id = ?\<close> and a commit. The
  row count is not looked at.
\<close>

record TicketCreate =
  tc_alert_id :: int
  tc_psa :: string

record ticket_response =
  tr_ticket_id :: string
  tr_psa :: string
  tr_message :: string

definition set_ticket :: "string \<Rightarrow> int \<Rightarrow> db \<Rightarrow> db" where
  "set_ticket ticket_id alert_id d =
     d\<lparr>alerts := map (\<lambda>a. if a_id a = alert_id
                            then a\<lparr>a_ticket_id := Some ticket_id, a_acknowledged := True\<rparr>
                            else a) (alerts d)\<rparr>"

definition create_ticket :: "db \<Rightarrow> int \<Rightarrow> TicketCreate \<Rightarrow> (error + ticket_response) \<times> db" where
  "create_ticket d alert_id ticket =
     (let conn = connect d;
          mock_ticket_id = map upper_char (tc_psa ticket) @ ''-'' @ str_int alert_id @ ''-001'';
          conn = conn\<lparr>pending := set_ticket mock_ticket_id alert_id (pending conn)\<rparr>;
          conn = conn\<lparr>committed := pending conn\<rparr>
      in (Inr \<lparr>tr_ticket_id = mock_ticket_id, tr_psa = tc_psa ticket,
               tr_message = ''Ticket created in '' @ tc_psa ticket @ '' (mock)''\<rparr>,
          close conn))"

text \<open>
  The requests that write to the database, and the database after a sequence of them.
\<close>

datatype request =
    Ingest "nat \<Rightarrow> bool" int WebhookPayload
  | Acknowledge int
  | CreateTicket int TicketCreate

fun handle :: "db \<Rightarrow> request \<Rightarrow> db" where
  "handle d (Ingest fails now payload) = snd (receive_metrics fails now d payload)"
| "handle d (Acknowledge alert_id) = snd (acknowledge_alert d alert_id)"
| "handle d (CreateTicket alert_id ticket) = snd (create_ticket d alert_id ticket)"

definition empty_db :: db where
  "empty_db = \<lparr>systems = [], metrics = [], alerts = [], metrics_seq = 0, alerts_seq = 0\<rparr>"

subsection \<open>Windowed queries\<close>

text \<open>
  \<^verbatim>\<open>datetime('now', '-N hours')\<close>: the instant \<open>N\<close> hours before the clock reading.
\<close>

definition window_start :: "int \<Rightarrow> int \<Rightarrow> int" where
  "window_start now hours = now - hours * 3600"


subsection \<open>The per-system disk view: \<^verbatim>\<open>get_system_disks\<close>\<close>











subsection \<open>The fleet summary of disks: \<^verbatim>\<open>get_disks_summary\<close>\<close>

text \<open>
  SQLite's \<^verbatim>\<open>LIKE\<close>: \<^verbatim>\<open>%\<close> matches any run of characters, \<^verbatim>\<open>_\<close> any one character,
  and a letter matches in either case (ASCII). The first argument is the pattern.
\<close>

definition lower_char :: "char \<Rightarrow> char" where
  "lower_char c =
     (let n = (of_char c :: nat) in if 65 \<le> n \<and> n \<le> 90 then char_of (n + 32) else c)"

fun like :: "string \<Rightarrow> string \<Rightarrow> bool" where
  "like [] [] = True"
| "like [] (c # s) = False"
| "like (p # ps) [] = (p = CHR ''%'' \<and> like ps [])"
| "like (p # ps) (c # s) =
     (if p = CHR ''%'' then like ps (c # s) \<or> like (p # ps) s
      else (p = CHR ''_'' \<or> lower_char p = lower_char c) \<and> like ps s)"

text \<open>\<^verbatim>\<open>COUNT(DISTINCT expr)\<close> over the selected rows (\<open>expr\<close> is never \<^verbatim>\<open>NULL\<close> here).\<close>

definition count_distinct :: "(metric_row \<Rightarrow> string) \<Rightarrow> metric_row list \<Rightarrow> int" where
  "count_distinct expr rows = int (length (remdups (map expr rows)))"

text \<open>\<^verbatim>\<open>SUBSTR(metric_name, 1, INSTR(metric_name || '_', '_') - 1)\<close>: the text before the first underscore.\<close>

definition first_segment :: "string \<Rightarrow> string" where
  "first_segment metric_name = takeWhile (\<lambda>c. c \<noteq> CHR ''_'') metric_name"

text \<open>\<^verbatim>\<open>system_id || '_' || metric_name\<close>.\<close>

definition name_key :: "metric_row \<Rightarrow> string" where
  "name_key m = m_system_id m @ ''_'' @ m_metric_name m"

definition disk_key :: "metric_row \<Rightarrow> string" where
  "disk_key m = m_system_id m @ ''_'' @ first_segment (m_metric_name m)"

text \<open>The \<^verbatim>\<open>WHERE\<close> clauses of the four counting queries of \<^verbatim>\<open>get_disks_summary\<close>.\<close>

definition is_recent_disk :: "int \<Rightarrow> metric_row \<Rightarrow> bool" where
  "is_recent_disk now m \<longleftrightarrow>
     m_metric_type m = ''disk'' \<and> m_timestamp m > window_start now 24"

definition is_temp_over :: "real \<Rightarrow> int \<Rightarrow> metric_row \<Rightarrow> bool" where
  "is_temp_over limit now m \<longleftrightarrow>
     m_metric_type m = ''disk'' \<and> like ''%_temperature'' (m_metric_name m)
     \<and> m_value m > limit \<and> m_timestamp m > window_start now 1"

definition is_smart_failure :: "int \<Rightarrow> metric_row \<Rightarrow> bool" where
  "is_smart_failure now m \<longleftrightarrow>
     m_metric_type m = ''disk'' \<and> like ''%_smart_status'' (m_metric_name m)
     \<and> m_value m = 0 \<and> m_timestamp m > window_start now 24"

record disks_summary =
  total_disks :: int
  healthy_disks :: int
  warnings :: int
  critical :: int
  smart_failures :: int

text \<open>
  \<^verbatim>\<open>get_disks_summary\<close>: the counters and the dict it returns. The two call-outs
  \<^verbatim>\<open>avg_temperature\<close> and \<^verbatim>\<open>hottest_disk\<close>, which no counter reads, are left out.
\<close>

definition get_disks_summary :: "db \<Rightarrow> int \<Rightarrow> disks_summary" where
  "get_disks_summary d now =
     (let total = count_distinct disk_key (filter (is_recent_disk now) (metrics d));
          temp_warnings = count_distinct name_key (filter (is_temp_over 45 now) (metrics d));
          temp_critical = count_distinct name_key (filter (is_temp_over 55 now) (metrics d));
          smart = count_distinct name_key (filter (is_smart_failure now) (metrics d))
      in \<lparr>total_disks = total,
          healthy_disks = total - temp_warnings - smart,
          warnings = temp_warnings,
          critical = temp_critical + smart,
          smart_failures = smart\<rparr>)"

subsection \<open>The fleet summaries of replication tasks and pools\<close>

text \<open>
  \<^verbatim>\<open>timestamp = (SELECT MAX(timestamp) FROM metrics m2 WHERE m2.system_id = m1.system_id\<close>
  \<^verbatim>\<open>AND m2.metric_name = m1.metric_name)\<close>, for a row \<open>m\<close> of the table: no row of the
  same system and name is newer.
\<close>

definition is_latest_of_name :: "db \<Rightarrow> metric_row \<Rightarrow> bool" where
  "is_latest_of_name d m \<longleftrightarrow>
     filter (\<lambda>m2. m_system_id m2 = m_system_id m \<and> m_metric_name m2 = m_metric_name m
                   \<and> m_timestamp m2 > m_timestamp m) (metrics d) = []"

text \<open>
  \<^verbatim>\<open>system_id || '_' || SUBSTR(metric_name, 1, LENGTH(metric_name) - n)\<close>, where \<open>n\<close> is
  the length of the suffix that the \<^verbatim>\<open>LIKE\<close> pattern of the query asks for.
\<close>

definition stem_key :: "nat \<Rightarrow> metric_row \<Rightarrow> string" where
  "stem_key n m = m_system_id m @ ''_'' @ take (length (m_metric_name m) - n) (m_metric_name m)"

definition is_task_status :: "int \<Rightarrow> metric_row \<Rightarrow> bool" where
  "is_task_status now m \<longleftrightarrow>
     m_metric_type m = ''replication'' \<and> like ''%_status'' (m_metric_name m)
     \<and> m_timestamp m > window_start now 24"

definition is_failed_task :: "int \<Rightarrow> metric_row \<Rightarrow> bool" where
  "is_failed_task now m \<longleftrightarrow>
     m_metric_type m = ''replication'' \<and> like ''%_status'' (m_metric_name m)
     \<and> m_value m = 0 \<and> m_timestamp m > window_start now 24"

text \<open>
  \<^verbatim>\<open>value < strftime('%s', 'now', '-24 hours')\<close>: the column has \<^verbatim>\<open>REAL\<close> affinity, so
  the text of the epoch seconds is compared as a number.
\<close>

definition is_stale_task :: "db \<Rightarrow> int \<Rightarrow> metric_row \<Rightarrow> bool" where
  "is_stale_task d now m \<longleftrightarrow>
     m_metric_type m = ''replication'' \<and> like ''%_last_run'' (m_metric_name m)
     \<and> is_latest_of_name d m \<and> m_value m < real_of_int (window_start now 24)"

record replication_summary =
  total_tasks :: int
  healthy_tasks :: int
  failed_tasks :: int
  stale_tasks :: int

text \<open>
  \<^verbatim>\<open>get_replication_summary\<close>: the three counters, then
  \<^verbatim>\<open>healthy_tasks = total_tasks - failed_tasks - stale_tasks\<close> and
  \<^verbatim>\<open>if healthy_tasks < 0: healthy_tasks = 0\<close>. The call-outs \<^verbatim>\<open>last_success\<close> and
  \<^verbatim>\<open>oldest_stale\<close> are left out.
\<close>

definition get_replication_summary :: "db \<Rightarrow> int \<Rightarrow> replication_summary" where
  "get_replication_summary d now =
     (let total = count_distinct (stem_key 7) (filter (is_task_status now) (metrics d));
          failed = count_distinct name_key (filter (is_failed_task now) (metrics d));
          stale = count_distinct (stem_key 9) (filter (is_stale_task d now) (metrics d));
          healthy = total - failed - stale;
          healthy = (if healthy < 0 then 0 else healthy)
      in \<lparr>total_tasks = total, healthy_tasks = healthy, failed_tasks = failed,
          stale_tasks = stale\<rparr>)"

definition is_pool_total :: "int \<Rightarrow> metric_row \<Rightarrow> bool" where
  "is_pool_total now m \<longleftrightarrow>
     (m_metric_type m = ''pool'' \<or> m_metric_type m = ''pool_health'')
     \<and> like ''%_total'' (m_metric_name m) \<and> m_timestamp m > window_start now 24"

definition is_degraded_pool :: "int \<Rightarrow> metric_row \<Rightarrow> bool" where
  "is_degraded_pool now m \<longleftrightarrow>
     m_metric_type m = ''pool_health'' \<and> like ''%_state'' (m_metric_name m)
     \<and> m_value m = 0 \<and> m_timestamp m > window_start now 24"

text \<open>
  \<^verbatim>\<open>seven_days_ago = time.time() - (7 * 24 * 3600)\<close>, with the clock read in whole
  seconds.
\<close>

definition is_unscrubbed_pool :: "db \<Rightarrow> int \<Rightarrow> metric_row \<Rightarrow> bool" where
  "is_unscrubbed_pool d now m \<longleftrightarrow>
     m_metric_type m = ''pool_health'' \<and> like ''%_scrub_last'' (m_metric_name m)
     \<and> is_latest_of_name d m \<and> m_value m < real_of_int (now - 7 * 24 * 3600)"

definition is_resilvering_pool :: "int \<Rightarrow> metric_row \<Rightarrow> bool" where
  "is_resilvering_pool now m \<longleftrightarrow>
     m_metric_type m = ''pool_health'' \<and> like ''%_resilver_status'' (m_metric_name m)
     \<and> m_value m = 1 \<and> m_timestamp m > window_start now 1"

record pools_summary =
  total_pools :: int
  healthy_pools :: int
  degraded_pools :: int
  needs_scrub :: int
  active_resilvers :: int

text \<open>
  \<^verbatim>\<open>get_pools_summary\<close>: the counters, then
  \<^verbatim>\<open>healthy_pools = total_pools - degraded_pools - needs_scrub\<close> and
  \<^verbatim>\<open>if healthy_pools < 0: healthy_pools = 0\<close>. The capacity figures
  (\<^verbatim>\<open>capacity_warnings\<close>, \<^verbatim>\<open>total_capacity_tb\<close>, \<^verbatim>\<open>used_capacity_tb\<close>) are left out.
\<close>

definition get_pools_summary :: "db \<Rightarrow> int \<Rightarrow> pools_summary" where
  "get_pools_summary d now =
     (let total = count_distinct disk_key (filter (is_pool_total now) (metrics d));
          degraded = count_distinct name_key (filter (is_degraded_pool now) (metrics d));
          scrub = count_distinct (stem_key 11) (filter (is_unscrubbed_pool d now) (metrics d));
          resilvers = count_distinct name_key (filter (is_resilvering_pool now) (metrics d));
          healthy = total - degraded - scrub;
          healthy = (if healthy < 0 then 0 else healthy)
      in \<lparr>total_pools = total, healthy_pools = healthy, degraded_pools = degraded,
          needs_scrub = scrub, active_resilvers = resilvers\<rparr>)"

subsection \<open>Reading the disk view\<close>





subsection \<open>Reference notions for the properties\<close>

text \<open>
  The whole batch of a payload, applied with no failure: the upsert, every metric row,
  every alert row.
\<close>

definition whole_batch :: "int \<Rightarrow> SystemInfo \<Rightarrow> MetricData list \<Rightarrow> AlertData list \<Rightarrow> db \<Rightarrow> db" where
  "whole_batch now s ms as d =
     foldl (\<lambda>d a. insert_alert now a d)
       (foldl (\<lambda>d m. insert_metric now m d) (upsert_system now s d) ms) as"

text \<open>A batch goes through when both lists are present and no statement raises.\<close>

definition batch_ok :: "(nat \<Rightarrow> bool) \<Rightarrow> WebhookPayload \<Rightarrow> bool" where
  "batch_ok fails p \<longleftrightarrow>
     (case (p_metrics p, p_alerts p) of
        (Some ms, Some as) \<Rightarrow> list_all (\<lambda>k. \<not> fails k) [0..<2 + length ms + length as]
      | _ \<Rightarrow> False)"

text \<open>
  \<open>ack_monotone d d'\<close>: every alert of \<open>d\<close> is still in \<open>d'\<close>, at its place and under
  its id, and is acknowledged in \<open>d'\<close> if it was in \<open>d\<close>.
\<close>

definition ack_monotone :: "db \<Rightarrow> db \<Rightarrow> bool" where
  "ack_monotone d d' \<longleftrightarrow>
     length (alerts d) \<le> length (alerts d')
     \<and> list_all2 (\<lambda>a a'. a_id a' = a_id a \<and> (a_acknowledged a \<longrightarrow> a_acknowledged a'))
          (alerts d) (take (length (alerts d)) (alerts d'))"

text \<open>
  The latest point as the specification words it: the row that is greatest under
  (timestamp, insertion sequence) among the given rows.
\<close>

definition spec_latest :: "metric_row list \<Rightarrow> metric_row option" where
  "spec_latest rows =
     (case rows of
        [] \<Rightarrow> None
      | r # rs \<Rightarrow>
          Some (foldl (\<lambda>best m. if (m_timestamp best, m_id best) < (m_timestamp m, m_id m)
                                 then m else best) r rs))"

text \<open>
  Rows carry increasing ids (the \<^verbatim>\<open>AUTOINCREMENT\<close> key), none above the sequence
  counter.
\<close>

definition ids_increasing :: "db \<Rightarrow> bool" where
  "ids_increasing d \<longleftrightarrow>
     sorted_wrt (<) (map m_id (metrics d)) \<and> list_all (\<lambda>m. m_id m \<le> metrics_seq d) (metrics d)"

subsection \<open>Per-system classification\<close>



subsection \<open>Example data\<close>

text \<open>
  A small database: system \<^verbatim>\<open>A\<close> last seen at second 500, one metric row, an
  unacknowledged alert 1 and an acknowledged alert 2.
\<close>

definition example_db :: db where
  "example_db =
     \<lparr>systems = [\<lparr>s_id = ''A'', s_name = ''alpha'', s_hostname = None, s_version = None,
                  s_last_seen = 500, s_client_name = None\<rparr>],
      metrics = [\<lparr>m_id = 1, m_system_id = ''A'', m_timestamp = 500, m_metric_type = ''disk'',
                  m_metric_name = ''ada0_temperature'', m_value = 38, m_unit = Some ''C'',
                  m_metadata = None\<rparr>],
      alerts = [\<lparr>a_id = 1, a_system_id = ''A'', a_timestamp = 400, a_severity = ''warning'',
                 a_message = ''pool tank is 85% full'', a_acknowledged = False,
                 a_ticket_id = None\<rparr>,
                \<lparr>a_id = 2, a_system_id = ''A'', a_timestamp = 450, a_severity = ''info'',
                 a_message = ''scrub finished'', a_acknowledged = True, a_ticket_id = None\<rparr>],
      metrics_seq = 1, alerts_seq = 2\<rparr>"

text \<open>
  A payload of system \<^verbatim>\<open>A\<close> with two metric facts, the second one carrying the
  system id \<^verbatim>\<open>B\<close>, and one alert.
\<close>

definition example_payload :: WebhookPayload where
  "example_payload =
     \<lparr>p_system = \<lparr>si_id = ''A'', si_name = ''alpha'', si_hostname = None, si_version = None,
                   si_client_name = None\<rparr>,
      p_metrics = Some [\<lparr>md_system_id = ''A'', md_metric_type = ''disk'',
                         md_metric_name = ''ada0_temperature'', md_value = 41,
                         md_unit = Some ''C'', md_metadata = None\<rparr>,
                        \<lparr>md_system_id = ''B'', md_metric_type = ''disk'',
                         md_metric_name = ''ada1_temperature'', md_value = 43,
                         md_unit = Some ''C'', md_metadata = Some ''{}''\<rparr>],
      p_alerts = Some [\<lparr>ad_system_id = ''A'', ad_severity = ''critical'',
                        ad_message = ''disk ada1 failing''\<rparr>]\<rparr>"

definition example_requests :: "request list" where
  "example_requests =
     [Acknowledge 1, CreateTicket 1 \<lparr>tc_alert_id = 1, tc_psa = ''halo''\<rparr>,
      Ingest (\<lambda>k. False) 1000 example_payload, Acknowledge 1, Acknowledge 7]"

text \<open>A disk row with no unit and no metadata.\<close>

definition disk_row :: "int \<Rightarrow> string \<Rightarrow> int \<Rightarrow> string \<Rightarrow> real \<Rightarrow> metric_row" where
  "disk_row i system_id t metric_name x =
     \<lparr>m_id = i, m_system_id = system_id, m_timestamp = t, m_metric_type = ''disk'',
      m_metric_name = metric_name, m_value = x, m_unit = None, m_metadata = None\<rparr>"



subsection \<open>Example logs for the summaries\<close>

text \<open>Disk \<^verbatim>\<open>ada0\<close> of system \<^verbatim>\<open>S1\<close> reports 50 degrees and a failed SMART status.\<close>

definition hot_failing_db :: db where
  "hot_failing_db =
     empty_db\<lparr>metrics := [disk_row 1 ''S1'' 999900 ''ada0_temperature'' 50,
                          disk_row 2 ''S1'' 999900 ''ada0_smart_status'' 0],
              metrics_seq := 2\<rparr>"




section \<open>Properties of the decoders\<close>

lemma rsplit1_append:
  assumes "CHR ''_'' \<notin> set a"
  shows "rsplit1 (e @ ''_'' @ a) = [e, a]"
proof -
  have tw: "takeWhile (\<lambda>c. c \<noteq> CHR ''_'') (rev a @ CHR ''_'' # rev e) = rev a"
    using assms by (auto simp: takeWhile_append)
  have dw: "dropWhile (\<lambda>c. c \<noteq> CHR ''_'') (rev a @ CHR ''_'' # rev e) = CHR ''_'' # rev e"
    using assms by (auto simp: dropWhile_append)
  show ?thesis
    by (simp add: rsplit1_def tw dw)
qed

lemma rsplit1_none: "CHR ''_'' \<notin> set n \<Longrightarrow> rsplit1 n = [n]"
  by (simp add: rsplit1_def)

lemma last_underscore_split:
  assumes "CHR ''_'' \<in> set n"
  shows "\<exists>e a. n = e @ ''_'' @ a \<and> CHR ''_'' \<notin> set a"
proof -
  from assms obtain e a where "n = e @ CHR ''_'' # a" and "CHR ''_'' \<notin> set a"
    using split_list_last [of "CHR ''_''" n] by blast
  then show ?thesis by auto
qed

lemma split1_append:
  assumes "CHR ''_'' \<notin> set e"
  shows "split1 (e @ ''_'' @ a) = [e, a]"
proof -
  have tw: "takeWhile (\<lambda>c. c \<noteq> CHR ''_'') (e @ CHR ''_'' # a) = e"
    using assms by (auto simp: takeWhile_append)
  have dw: "dropWhile (\<lambda>c. c \<noteq> CHR ''_'') (e @ CHR ''_'' # a) = CHR ''_'' # a"
    using assms by (auto simp: dropWhile_append)
  show ?thesis
    by (simp add: split1_def tw dw)
qed

lemma first_underscore_split:
  assumes "CHR ''_'' \<in> set n"
  shows "\<exists>e a. n = e @ ''_'' @ a \<and> CHR ''_'' \<notin> set e"
proof -
  from assms obtain e a where "n = e @ CHR ''_'' # a" and "CHR ''_'' \<notin> set e"
    using split_list_first [of "CHR ''_''" n] by blast
  then show ?thesis by auto
qed

text \<open>
  C1. For a disk or replication name, decoding splits at the last underscore: the part
  left of it is the entity, the part right of it (which has no underscore) the attribute;
  \<^verbatim>\<open>ada0_smart_status\<close> gives entity \<^verbatim>\<open>ada0_smart\<close> and attribute \<^verbatim>\<open>status\<close>.
  A name with no underscore is its own entity, with the attribute \<^verbatim>\<open>value\<close>.
\<close>

theorem decode_rightmost_split:
  "(CHR ''_'' \<in> set n \<longrightarrow>
      (\<exists>e a. n = e @ ''_'' @ a \<and> CHR ''_'' \<notin> set a
             \<and> decode_disk n = (e, a) \<and> decode_task n = (e, a)))
   \<and> (CHR ''_'' \<notin> set a' \<longrightarrow>
        decode_disk (e' @ ''_'' @ a') = (e', a') \<and> decode_task (e' @ ''_'' @ a') = (e', a'))
   \<and> (CHR ''_'' \<notin> set n \<longrightarrow>
        decode_disk n = (n, ''value'') \<and> decode_task n = (n, ''value''))
   \<and> decode_disk ''ada0_smart_status'' = (''ada0_smart'', ''status'')
   \<and> decode_task ''ada0_smart_status'' = (''ada0_smart'', ''status'')"
proof -
  have app: "decode_disk (e @ ''_'' @ a) = (e, a) \<and> decode_task (e @ ''_'' @ a) = (e, a)"
    if "CHR ''_'' \<notin> set a" for e a
    using rsplit1_append [OF that, of e] by (simp add: decode_disk_def decode_task_def)
  have some: "\<exists>e a. n = e @ ''_'' @ a \<and> CHR ''_'' \<notin> set a
                 \<and> decode_disk n = (e, a) \<and> decode_task n = (e, a)"
    if "CHR ''_'' \<in> set n"
  proof -
    from last_underscore_split [OF that] obtain e a
      where n: "n = e @ ''_'' @ a" and a: "CHR ''_'' \<notin> set a" by blast
    from app [OF a, of e] n a show ?thesis by blast
  qed
  have none: "decode_disk n = (n, ''value'') \<and> decode_task n = (n, ''value'')"
    if "CHR ''_'' \<notin> set n"
    using rsplit1_none [OF that] by (simp add: decode_disk_def decode_task_def)
  have ex: "decode_disk ''ada0_smart_status'' = (''ada0_smart'', ''status'')
            \<and> decode_task ''ada0_smart_status'' = (''ada0_smart'', ''status'')"
    using app [of "''status''" "''ada0_smart''"] by simp
  from app [of a' e'] some none ex show ?thesis by blast
qed

theorem decode_rightmost_split_witness:
  "CHR ''_'' \<in> set ''tank-backup_status''
   \<and> CHR ''_'' \<notin> set ''temperature''
   \<and> CHR ''_'' \<notin> set ''uptime''
   \<and> decode_disk ''ada0_temperature'' = (''ada0'', ''temperature'')
   \<and> decode_task ''ada0_temperature'' = (''ada0'', ''temperature'')
   \<and> decode_disk ''uptime'' = (''uptime'', ''value'')
   \<and> decode_task ''uptime'' = (''uptime'', ''value'')"
  using decode_rightmost_split [of "''uptime''" "''temperature''" "''ada0''"]
  by simp

text \<open>
  C6. For a pool or pool_health name, decoding splits at the first underscore: the part
  before it (which has no underscore) is the pool, everything after it the attribute;
  \<^verbatim>\<open>tank_scrub_status\<close> gives pool \<^verbatim>\<open>tank\<close> and attribute \<^verbatim>\<open>scrub_status\<close>. The
  per-system view and the fleet view decode alike.
\<close>

theorem decode_leftmost_split:
  "(CHR ''_'' \<in> set n \<longrightarrow>
      (\<exists>e a. n = e @ ''_'' @ a \<and> CHR ''_'' \<notin> set e \<and> decode_pool n = (e, a)))
   \<and> (CHR ''_'' \<notin> set e' \<longrightarrow> decode_pool (e' @ ''_'' @ a') = (e', a'))
   \<and> decode_pool ''tank_scrub_status'' = (''tank'', ''scrub_status'')
   \<and> decode_pool_fleet n = decode_pool n"
proof -
  have app: "decode_pool (e @ ''_'' @ a) = (e, a)" if "CHR ''_'' \<notin> set e" for e a
    using split1_append [OF that, of a] by (simp add: decode_pool_def)
  have some: "\<exists>e a. n = e @ ''_'' @ a \<and> CHR ''_'' \<notin> set e \<and> decode_pool n = (e, a)"
    if "CHR ''_'' \<in> set n"
  proof -
    from first_underscore_split [OF that] obtain e a
      where n: "n = e @ ''_'' @ a" and e: "CHR ''_'' \<notin> set e" by blast
    from app [OF e, of a] n e show ?thesis by blast
  qed
  have ex: "decode_pool ''tank_scrub_status'' = (''tank'', ''scrub_status'')"
    using app [of "''tank''" "''scrub_status''"] by simp
  have same: "decode_pool_fleet n = decode_pool n"
    by (simp add: decode_pool_fleet_def decode_pool_def)
  from app [of e' a'] some ex same show ?thesis by blast
qed

theorem decode_leftmost_split_witness:
  "CHR ''_'' \<in> set ''tank_used''
   \<and> CHR ''_'' \<notin> set ''tank''
   \<and> decode_pool ''tank_resilver_progress'' = (''tank'', ''resilver_progress'')
   \<and> decode_pool_fleet ''tank_used'' = decode_pool ''tank_used''"
  using decode_leftmost_split [of "''tank_used''" "''tank''" "''resilver_progress''"]
  by simp
section \<open>Ingestion and the alert operations\<close>


lemma execute_cases:
  "execute fails k stmt c = (if fails k then (Some DatabaseError, c) else (None, c\<lparr>pending := stmt (pending c)\<rparr>))"
  by (simp add: execute_def)

lemma insert_metrics_committed:
  "insert_metrics fails k now ms c = (r, c') \<Longrightarrow> committed c' = committed c"
proof (induction ms arbitrary: k c)
  case Nil
  then show ?case by simp
next
  case (Cons m ms)
  then show ?case
    by (cases "fails k") (auto simp: execute_def)
qed

lemma insert_alerts_committed:
  "insert_alerts fails k now as c = (r, c') \<Longrightarrow> committed c' = committed c"
proof (induction as arbitrary: k c)
  case Nil
  then show ?case by simp
next
  case (Cons a as)
  then show ?case
    by (cases "fails k") (auto simp: execute_def)
qed

lemma insert_metrics_fst:
  "fst (insert_metrics fails k now ms c) =
     (if \<forall>j < length ms. \<not> fails (k + j) then None else Some DatabaseError)"
proof (induction ms arbitrary: k c)
  case Nil
  then show ?case by simp
next
  case (Cons m ms)
  show ?case
  proof (cases "fails k")
    case True
    then have "\<not> (\<forall>j < length (m # ms). \<not> fails (k + j))" by auto
    with True show ?thesis by (simp add: execute_def)
  next
    case False
    have eq: "(\<forall>j < length (m # ms). \<not> fails (k + j)) \<longleftrightarrow> (\<forall>j < length ms. \<not> fails (Suc k + j))"
      using False by (auto simp: less_Suc_eq_0_disj)
    have "fst (insert_metrics fails k now (m # ms) c)
          = fst (insert_metrics fails (Suc k) now ms (c\<lparr>pending := insert_metric now m (pending c)\<rparr>))"
      using False by (simp add: execute_def)
    also have "\<dots> = (if \<forall>j < length ms. \<not> fails (Suc k + j) then None else Some DatabaseError)"
      by (rule Cons.IH)
    finally show ?thesis unfolding eq .
  qed
qed

lemma insert_metrics_ok:
  "\<forall>j < length ms. \<not> fails (k + j) \<Longrightarrow>
   insert_metrics fails k now ms c =
     (None, c\<lparr>pending := foldl (\<lambda>d m. insert_metric now m d) (pending c) ms\<rparr>)"
proof (induction ms arbitrary: k c)
  case Nil
  then show ?case by simp
next
  case (Cons m ms)
  from Cons.prems have k: "\<not> fails k" by auto
  from Cons.prems have rest: "\<forall>j < length ms. \<not> fails (Suc k + j)" by auto
  show ?case
    using k Cons.IH [OF rest, of "c\<lparr>pending := insert_metric now m (pending c)\<rparr>"]
    by (simp add: execute_def)
qed

lemma insert_alerts_fst:
  "fst (insert_alerts fails k now as c) =
     (if \<forall>j < length as. \<not> fails (k + j) then None else Some DatabaseError)"
proof (induction as arbitrary: k c)
  case Nil
  then show ?case by simp
next
  case (Cons a as)
  show ?case
  proof (cases "fails k")
    case True
    then have "\<not> (\<forall>j < length (a # as). \<not> fails (k + j))" by auto
    with True show ?thesis by (simp add: execute_def)
  next
    case False
    have eq: "(\<forall>j < length (a # as). \<not> fails (k + j)) \<longleftrightarrow> (\<forall>j < length as. \<not> fails (Suc k + j))"
      using False by (auto simp: less_Suc_eq_0_disj)
    have "fst (insert_alerts fails k now (a # as) c)
          = fst (insert_alerts fails (Suc k) now as (c\<lparr>pending := insert_alert now a (pending c)\<rparr>))"
      using False by (simp add: execute_def)
    also have "\<dots> = (if \<forall>j < length as. \<not> fails (Suc k + j) then None else Some DatabaseError)"
      by (rule Cons.IH)
    finally show ?thesis unfolding eq .
  qed
qed

lemma insert_alerts_ok:
  "\<forall>j < length as. \<not> fails (k + j) \<Longrightarrow>
   insert_alerts fails k now as c =
     (None, c\<lparr>pending := foldl (\<lambda>d a. insert_alert now a d) (pending c) as\<rparr>)"
proof (induction as arbitrary: k c)
  case Nil
  then show ?case by simp
next
  case (Cons a as)
  from Cons.prems have k: "\<not> fails k" by auto
  from Cons.prems have rest: "\<forall>j < length as. \<not> fails (Suc k + j)" by auto
  show ?case
    using k Cons.IH [OF rest, of "c\<lparr>pending := insert_alert now a (pending c)\<rparr>"]
    by (simp add: execute_def)
qed

lemma all_stmts_split:
  "(\<forall>k \<le> 1 + m + n. \<not> fails (k::nat)) \<longleftrightarrow>
     \<not> fails 0 \<and> (\<forall>j < m. \<not> fails (1 + j)) \<and> (\<forall>j < n. \<not> fails (1 + m + j)) \<and> \<not> fails (1 + m + n)"
  (is "?L \<longleftrightarrow> ?R")
proof
  assume L: ?L
  have "\<not> fails (1 + j)" if "j < m" for j
  proof -
    from that have "1 + j \<le> 1 + m + n" by simp
    with L show ?thesis by blast
  qed
  moreover have "\<not> fails (1 + m + j)" if "j < n" for j
  proof -
    from that have "1 + m + j \<le> 1 + m + n" by simp
    with L show ?thesis by blast
  qed
  ultimately show ?R using L by simp
next
  assume R: ?R
  show ?L
  proof (intro allI impI)
    fix k assume k: "k \<le> 1 + m + n"
    consider "k = 0" | j where "k = 1 + j" "j < m" | j where "k = 1 + m + j" "j < n" | "k = 1 + m + n"
    proof -
      have "k = 0 \<or> (1 \<le> k \<and> k - 1 < m) \<or> (1 + m \<le> k \<and> k - (1 + m) < n) \<or> k = 1 + m + n"
        using k by arith
      then show ?thesis
      proof (elim disjE conjE)
        assume "k = 0" then show ?thesis using that(1) by blast
      next
        assume "1 \<le> k" "k - 1 < m"
        then show ?thesis using that(2) [of "k - 1"] by simp
      next
        assume "1 + m \<le> k" "k - (1 + m) < n"
        then show ?thesis using that(3) [of "k - (1 + m)"] by simp
      next
        assume "k = 1 + m + n" then show ?thesis using that(4) by blast
      qed
    qed
    then show "\<not> fails k" using R by cases auto
  qed
qed

lemma batch_ok_iff:
  "batch_ok fails p \<longleftrightarrow>
     (\<exists>ms as. p_metrics p = Some ms \<and> p_alerts p = Some as
        \<and> (\<forall>k \<le> 1 + length ms + length as. \<not> fails k))"
proof -
  have "list_all (\<lambda>k. \<not> fails k) [0..<2 + n] \<longleftrightarrow> (\<forall>k \<le> 1 + n. \<not> fails k)" for n
  proof -
    have "set [0..<2 + n] = {k. k \<le> 1 + n}" by auto
    then show ?thesis unfolding list_all_iff by blast
  qed
  from this [of "length _ + length _"] show ?thesis
    by (auto simp: batch_ok_def add.assoc split: option.splits)
qed

lemma receive_metrics_success:
  assumes "p_metrics p = Some ms" "p_alerts p = Some as"
    and "\<forall>k \<le> 1 + length ms + length as. \<not> fails k"
  shows "receive_metrics fails now d p =
           (Inr \<lparr>metrics_received = length ms, alerts_received = length as\<rparr>,
            whole_batch now (p_system p) ms as d)"
proof -
  from assms(3) have f: "\<not> fails 0" "\<forall>j < length ms. \<not> fails (1 + j)"
    "\<forall>j < length as. \<not> fails (1 + length ms + j)" "\<not> fails (1 + length ms + length as)"
    unfolding all_stmts_split by blast+
  show ?thesis
    using f assms(1,2)
    by (simp add: receive_metrics_def execute_def insert_metrics_ok insert_alerts_ok
        commit_def close_def connect_def whole_batch_def)
qed

lemma receive_metrics_failure:
  assumes "\<not> batch_ok fails p"
  shows "\<exists>e. receive_metrics fails now d p = (Inl e, d)"
proof (cases "fails 0")
  case True
  then show ?thesis by (simp add: receive_metrics_def execute_def close_def connect_def)
next
  case f0: False
  let ?c1 = "(connect d)\<lparr>pending := upsert_system now (p_system p) d\<rparr>"
  show ?thesis
  proof (cases "p_metrics p")
    case None
    with f0 show ?thesis by (simp add: receive_metrics_def execute_def close_def connect_def)
  next
    case (Some ms)
    obtain r2 c2 where m: "insert_metrics fails 1 now ms ?c1 = (r2, c2)" by (cases "insert_metrics fails 1 now ms ?c1")
    from insert_metrics_committed [OF m] have c2: "committed c2 = d" by (simp add: connect_def)
    show ?thesis
    proof (cases r2)
      case (Some e)
      with f0 \<open>p_metrics p = Some ms\<close> m c2 show ?thesis
        by (simp add: receive_metrics_def execute_def close_def connect_def)
    next
      case r2: None
      show ?thesis
      proof (cases "p_alerts p")
        case None
        with f0 \<open>p_metrics p = Some ms\<close> m c2 r2 show ?thesis
          by (simp add: receive_metrics_def execute_def close_def connect_def)
      next
        case (Some as)
        obtain r3 c3 where a: "insert_alerts fails (1 + length ms) now as c2 = (r3, c3)"
          by (cases "insert_alerts fails (1 + length ms) now as c2")
        from insert_alerts_committed [OF a] c2 have c3: "committed c3 = d" by simp
        show ?thesis
        proof (cases r3)
          case (Some e)
          with f0 \<open>p_metrics p = Some ms\<close> \<open>p_alerts p = Some as\<close> m a c3 r2 show ?thesis
            by (simp add: receive_metrics_def execute_def close_def connect_def)
        next
          case r3: None
          have fm: "\<forall>j < length ms. \<not> fails (1 + j)"
            using m r2 insert_metrics_fst [of fails 1 now ms ?c1] by (auto split: if_splits)
          have fa: "\<forall>j < length as. \<not> fails (1 + length ms + j)"
            using a r3 insert_alerts_fst [of fails "1 + length ms" now as c2] by (auto split: if_splits)
          have "fails (1 + length ms + length as)"
            using assms f0 fm fa \<open>p_metrics p = Some ms\<close> \<open>p_alerts p = Some as\<close>
            unfolding batch_ok_iff all_stmts_split by auto
          with f0 \<open>p_metrics p = Some ms\<close> \<open>p_alerts p = Some as\<close> m a c3 r2 r3 show ?thesis
            by (simp add: receive_metrics_def execute_def close_def connect_def commit_def)
        qed
      qed
    qed
  qed
qed


lemma enumerate_Suc_map: "enumerate (Suc n) xs = map (\<lambda>(k, x). (Suc k, x)) (enumerate n xs)"
  by (induction xs arbitrary: n) auto

lemma foldl_insert_metric:
  "foldl (\<lambda>d m. insert_metric now m d) d ms =
     d\<lparr>metrics := metrics d @ map (\<lambda>(k, m). metric_row_of now (metrics_seq d + 1 + int k) m) (enumerate 0 ms),
       metrics_seq := metrics_seq d + int (length ms)\<rparr>"
proof (induction ms arbitrary: d)
  case Nil
  then show ?case by simp
next
  case (Cons m ms)
  have shift: "map (\<lambda>(k, x). metric_row_of now (metrics_seq d + 1 + int k) x) (enumerate (Suc 0) ms)
             = map (\<lambda>(k, x). metric_row_of now (metrics_seq d + 1 + 1 + int k) x) (enumerate 0 ms)"
    by (simp add: enumerate_Suc_map case_prod_unfold add.assoc)
  show ?case
    unfolding foldl_Cons Cons.IH
    using shift by (simp add: insert_metric_def add.assoc)
qed

lemma foldl_insert_alert:
  "foldl (\<lambda>d a. insert_alert now a d) d as =
     d\<lparr>alerts := alerts d @ map (\<lambda>(k, a). alert_row_of now (alerts_seq d + 1 + int k) a) (enumerate 0 as),
       alerts_seq := alerts_seq d + int (length as)\<rparr>"
proof (induction as arbitrary: d)
  case Nil
  then show ?case by simp
next
  case (Cons a as)
  have shift: "map (\<lambda>(k, x). alert_row_of now (alerts_seq d + 1 + int k) x) (enumerate (Suc 0) as)
             = map (\<lambda>(k, x). alert_row_of now (alerts_seq d + 1 + 1 + int k) x) (enumerate 0 as)"
    by (simp add: enumerate_Suc_map case_prod_unfold add.assoc)
  show ?case
    unfolding foldl_Cons Cons.IH
    using shift by (simp add: insert_alert_def add.assoc)
qed

lemma whole_batch_fields:
  "systems (whole_batch now s ms as d) = systems (upsert_system now s d)"
  "metrics (whole_batch now s ms as d) =
     metrics d @ map (\<lambda>(k, m). metric_row_of now (metrics_seq d + 1 + int k) m) (enumerate 0 ms)"
  "alerts (whole_batch now s ms as d) =
     alerts d @ map (\<lambda>(k, a). alert_row_of now (alerts_seq d + 1 + int k) a) (enumerate 0 as)"
  "metrics_seq (whole_batch now s ms as d) = metrics_seq d + int (length ms)"
  "alerts_seq (whole_batch now s ms as d) = alerts_seq d + int (length as)"
  by (simp_all add: whole_batch_def foldl_insert_metric foldl_insert_alert upsert_system_def)

lemma receive_metrics_cases:
  "(\<exists>e. receive_metrics fails now d p = (Inl e, d))
   \<or> (\<exists>ms as. p_metrics p = Some ms \<and> p_alerts p = Some as
        \<and> (\<forall>k \<le> 1 + length ms + length as. \<not> fails k)
        \<and> receive_metrics fails now d p =
             (Inr \<lparr>metrics_received = length ms, alerts_received = length as\<rparr>,
              whole_batch now (p_system p) ms as d))"
proof (cases "batch_ok fails p")
  case True
  then obtain ms as where "p_metrics p = Some ms" "p_alerts p = Some as"
    "\<forall>k \<le> 1 + length ms + length as. \<not> fails k"
    by (auto simp: batch_ok_iff)
  then show ?thesis using receive_metrics_success by blast
next
  case False
  then show ?thesis using receive_metrics_failure by blast
qed

lemma ack_monotone_refl: "ack_monotone d d"
  by (simp add: ack_monotone_def list_all2_same)

lemma ack_monotone_trans:
  assumes "ack_monotone d1 d2" "ack_monotone d2 d3"
  shows "ack_monotone d1 d3"
proof -
  let ?R = "\<lambda>a a'. a_id a' = a_id a \<and> (a_acknowledged a \<longrightarrow> a_acknowledged a')"
  let ?n = "length (alerts d1)"
  from assms have len: "?n \<le> length (alerts d2)" "length (alerts d2) \<le> length (alerts d3)"
    by (simp_all add: ack_monotone_def)
  have a: "\<forall>k < ?n. ?R (alerts d1 ! k) (alerts d2 ! k)"
    using assms(1) len by (auto simp: ack_monotone_def list_all2_conv_all_nth)
  have b: "\<forall>k < length (alerts d2). ?R (alerts d2 ! k) (alerts d3 ! k)"
    using assms(2) len by (auto simp: ack_monotone_def list_all2_conv_all_nth)
  have "\<forall>k < ?n. ?R (alerts d1 ! k) (alerts d3 ! k)"
    using a b len by fastforce
  then show ?thesis
    using len by (simp add: ack_monotone_def list_all2_conv_all_nth)
qed

lemma ack_monotone_append: "alerts d' = alerts d @ new \<Longrightarrow> ack_monotone d d'"
  by (simp add: ack_monotone_def list_all2_same)

lemma ack_monotone_set_acknowledged: "ack_monotone d (set_acknowledged i d)"
  by (simp add: ack_monotone_def set_acknowledged_def list_all2_map2 list_all2_same)

lemma ack_monotone_set_ticket: "ack_monotone d (set_ticket t i d)"
  by (simp add: ack_monotone_def set_ticket_def list_all2_map2 list_all2_same)

lemma acknowledge_alert_eq:
  "acknowledge_alert d i =
     (if rowcount i d = 0 then (Inl NotFound, d) else (Inr i, set_acknowledged i d))"
  by (simp add: acknowledge_alert_def connect_def close_def Let_def)

lemma create_ticket_snd:
  "snd (create_ticket d i t) =
     set_ticket (map upper_char (tc_psa t) @ ''-'' @ str_int i @ ''-001'') i d"
  by (simp add: create_ticket_def connect_def close_def Let_def)

lemma create_ticket_fst:
  "fst (create_ticket d i t) =
     Inr \<lparr>tr_ticket_id = map upper_char (tc_psa t) @ ''-'' @ str_int i @ ''-001'',
          tr_psa = tc_psa t, tr_message = ''Ticket created in '' @ tc_psa t @ '' (mock)''\<rparr>"
  by (simp add: create_ticket_def connect_def close_def Let_def)

lemma ack_monotone_handle: "ack_monotone d (handle d r)"
proof (cases r)
  case (Ingest fails now p)
  from receive_metrics_cases [of fails now d p]
  have "snd (receive_metrics fails now d p) = d
        \<or> (\<exists>ms as. snd (receive_metrics fails now d p) = whole_batch now (p_system p) ms as d)"
    by (metis snd_conv)
  then show ?thesis
    using Ingest ack_monotone_refl ack_monotone_append [OF whole_batch_fields(3)] by auto
next
  case (Acknowledge i)
  then show ?thesis
    by (simp add: acknowledge_alert_eq ack_monotone_refl ack_monotone_set_acknowledged)
next
  case (CreateTicket i t)
  then show ?thesis
    by (simp add: create_ticket_snd ack_monotone_set_ticket)
qed

lemma ack_monotone_requests: "ack_monotone d (foldl handle d reqs)"
proof (induction reqs rule: rev_induct)
  case Nil
  then show ?case by (simp add: ack_monotone_refl)
next
  case (snoc r reqs)
  then show ?case
    using ack_monotone_trans [OF snoc.IH ack_monotone_handle [of "foldl handle d reqs" r]] by simp
qed

lemma set_acknowledged_idem: "set_acknowledged i (set_acknowledged i d) = set_acknowledged i d"
  by (simp add: set_acknowledged_def comp_def)

lemma rowcount_set_acknowledged: "rowcount i (set_acknowledged i d) = rowcount i d"
proof -
  have "filter (\<lambda>a. a_id a = i) (map (\<lambda>a. if a_id a = i then a\<lparr>a_acknowledged := True\<rparr> else a) xs)
        = map (\<lambda>a. a\<lparr>a_acknowledged := True\<rparr>) (filter (\<lambda>a. a_id a = i) xs)" for xs
    by (induction xs) auto
  from this [of "alerts d"] show ?thesis by (simp add: rowcount_def set_acknowledged_def)
qed

lemma acknowledge_alert_twice:
  "acknowledge_alert (snd (acknowledge_alert d i)) i = acknowledge_alert d i"
  by (simp add: acknowledge_alert_eq rowcount_set_acknowledged set_acknowledged_idem)

lemma set_acknowledged_noop:
  "\<forall>a \<in> set (alerts d). a_id a = i \<longrightarrow> a_acknowledged a \<Longrightarrow> set_acknowledged i d = d"
proof -
  assume h: "\<forall>a \<in> set (alerts d). a_id a = i \<longrightarrow> a_acknowledged a"
  have "map (\<lambda>a. if a_id a = i then a\<lparr>a_acknowledged := True\<rparr> else a) (alerts d) = alerts d"
    using h by (induction "alerts d") (auto simp: map_idI)
  then show ?thesis by (simp add: set_acknowledged_def)
qed


lemma acknowledge_alert_unknown:
  "\<forall>a \<in> set (alerts d). a_id a \<noteq> i \<Longrightarrow> acknowledge_alert d i = (Inl NotFound, d)"
  by (simp add: acknowledge_alert_eq rowcount_def)

lemma create_ticket_unknown:
  assumes "\<forall>a \<in> set (alerts d). a_id a \<noteq> i"
  shows "snd (create_ticket d i t) = d"
proof -
  have "map (\<lambda>a. if a_id a = i then a\<lparr>a_ticket_id := Some x, a_acknowledged := True\<rparr> else a) (alerts d)
        = alerts d" for x
    using assms by (simp add: map_idI)
  then show ?thesis by (simp add: create_ticket_snd set_ticket_def)
qed

lemma set_ticket_sets:
  assumes "a \<in> set (alerts (set_ticket T i d))" "a_id a = i"
  shows "a_acknowledged a \<and> a_ticket_id a = Some T"
proof -
  from assms(1) obtain x where x: "x \<in> set (alerts d)"
    and a: "a = (if a_id x = i then x\<lparr>a_ticket_id := Some T, a_acknowledged := True\<rparr> else x)"
    by (auto simp: set_ticket_def)
  show ?thesis
  proof (cases "a_id x = i")
    case True
    with a show ?thesis by simp
  next
    case False
    with a assms(2) show ?thesis by simp
  qed
qed

text \<open>
  C7. An alert id that is not in the alert log: \<^verbatim>\<open>acknowledge_alert\<close> fails with
  NotFound and leaves the store as it was, but \<^verbatim>\<open>create_ticket\<close>, which never reads the
  row count, answers with a ticket id (the store is left as it was there too).
  Evaluated on the empty database for the id 999.
\<close>

theorem create_ticket_unknown_alert_id:
  "create_ticket empty_db 999 \<lparr>tc_alert_id = 999, tc_psa = ''halo''\<rparr>
     = (Inr \<lparr>tr_ticket_id = ''HALO-999-001'', tr_psa = ''halo'',
             tr_message = ''Ticket created in halo (mock)''\<rparr>, empty_db)
   \<and> acknowledge_alert empty_db 999 = (Inl NotFound, empty_db)"
  by code_simp

text \<open>
  C8. Over any sequence of writing requests every alert stays in the log under its id and
  an acknowledged alert stays acknowledged. \<^verbatim>\<open>acknowledge_alert\<close> leaves the alert with
  the given id acknowledged; acknowledging again gives the same answer and the same
  database, and acknowledging an already acknowledged alert succeeds and changes nothing.
  \<^verbatim>\<open>create_ticket\<close> leaves the alert acknowledged and carrying the ticket id.
\<close>

theorem alert_acknowledged_monotonic:
  "ack_monotone d (foldl handle d reqs)
   \<and> (\<forall>a \<in> set (alerts (snd (acknowledge_alert d i))). a_id a = i \<longrightarrow> a_acknowledged a)
   \<and> acknowledge_alert (snd (acknowledge_alert d i)) i = acknowledge_alert d i
   \<and> (rowcount i d \<noteq> 0 \<and> (\<forall>a \<in> set (alerts d). a_id a = i \<longrightarrow> a_acknowledged a)
        \<longrightarrow> acknowledge_alert d i = (Inr i, d))
   \<and> (\<forall>a \<in> set (alerts (snd (create_ticket d i t))). a_id a = i \<longrightarrow>
         a_acknowledged a
         \<and> a_ticket_id a = Some (map upper_char (tc_psa t) @ ''-'' @ str_int i @ ''-001''))"
proof -
  have sets: "\<forall>a \<in> set (alerts (snd (acknowledge_alert d i))). a_id a = i \<longrightarrow> a_acknowledged a"
    by (auto simp: acknowledge_alert_eq rowcount_def set_acknowledged_def filter_empty_conv)
  have noop: "acknowledge_alert d i = (Inr i, d)"
    if "rowcount i d \<noteq> 0" "\<forall>a \<in> set (alerts d). a_id a = i \<longrightarrow> a_acknowledged a"
    using that set_acknowledged_noop [of d i] by (simp add: acknowledge_alert_eq)
  have ticket: "\<forall>a \<in> set (alerts (snd (create_ticket d i t))). a_id a = i \<longrightarrow>
         a_acknowledged a
         \<and> a_ticket_id a = Some (map upper_char (tc_psa t) @ ''-'' @ str_int i @ ''-001'')"
    using set_ticket_sets [of _ "map upper_char (tc_psa t) @ ''-'' @ str_int i @ ''-001''" i d]
    unfolding create_ticket_snd by blast
  from ack_monotone_requests [of d reqs] sets acknowledge_alert_twice [of d i] noop ticket
  show ?thesis by blast
qed

theorem alert_acknowledged_monotonic_witness:
  "rowcount 2 example_db = 1
   \<and> map (\<lambda>a. (a_id a, a_acknowledged a)) (alerts example_db) = [(1, False), (2, True)]
   \<and> acknowledge_alert example_db 2 = (Inr 2, example_db)
   \<and> ack_monotone example_db (foldl handle example_db example_requests)
   \<and> map (\<lambda>a. (a_id a, a_acknowledged a, a_ticket_id a))
        (alerts (foldl handle example_db example_requests))
      = [(1, True, Some ''HALO-1-001''), (2, True, None), (3, False, None)]"
proof -
  have e: "rowcount 2 example_db = 1"
    "map (\<lambda>a. (a_id a, a_acknowledged a)) (alerts example_db) = [(1, False), (2, True)]"
    "map (\<lambda>a. (a_id a, a_acknowledged a, a_ticket_id a))
        (alerts (foldl handle example_db example_requests))
      = [(1, True, Some ''HALO-1-001''), (2, True, None), (3, False, None)]"
    by code_simp+
  have h: "\<forall>a \<in> set (alerts example_db). a_id a = 2 \<longrightarrow> a_acknowledged a"
    by (simp add: example_db_def)
  from alert_acknowledged_monotonic [of example_db example_requests 2] e h
  show ?thesis by simp
qed



lemma map_enumerate_snd: "map (\<lambda>(k, x). f x) (enumerate n xs) = map f xs"
  by (induction xs arbitrary: n) auto

text \<open>
  C10. On a successful ingest every new metric row carries the system id of its own
  metric fact, whatever the id of the upserted system record, and the only system row
  written is the payload's. Nothing compares the two: a batch of system \<^verbatim>\<open>A\<close> with a
  metric fact of \<^verbatim>\<open>B\<close>, on the empty database, advances \<^verbatim>\<open>last_seen\<close> of \<^verbatim>\<open>A\<close> and
  stores a metric row of \<^verbatim>\<open>B\<close>, a system that has no row.
\<close>

theorem metric_rows_keep_their_own_system_id:
  "(receive_metrics fails now d p = (Inr resp, d') \<and> p_metrics p = Some ms \<longrightarrow>
      map m_system_id (metrics d') = map m_system_id (metrics d) @ map md_system_id ms
      \<and> map s_id (systems d') =
          (if si_id (p_system p) \<in> set (map s_id (systems d)) then map s_id (systems d)
           else map s_id (systems d) @ [si_id (p_system p)]))
   \<and> (let payload = \<lparr>p_system = \<lparr>si_id = ''A'', si_name = ''alpha'', si_hostname = None,
                                  si_version = None, si_client_name = None\<rparr>,
                      p_metrics = Some [\<lparr>md_system_id = ''B'', md_metric_type = ''disk'',
                                         md_metric_name = ''ada0_temperature'', md_value = 40,
                                         md_unit = None, md_metadata = None\<rparr>],
                      p_alerts = Some []\<rparr>;
           after = snd (receive_metrics (\<lambda>k. False) 1000 empty_db payload)
       in map (\<lambda>s. (s_id s, s_last_seen s)) (systems after) = [(''A'', 1000)]
          \<and> map m_system_id (metrics after) = [''B''])"
proof -
  have gen: "map m_system_id (metrics d') = map m_system_id (metrics d) @ map md_system_id ms
      \<and> map s_id (systems d') =
          (if si_id (p_system p) \<in> set (map s_id (systems d)) then map s_id (systems d)
           else map s_id (systems d) @ [si_id (p_system p)])"
    if r: "receive_metrics fails now d p = (Inr resp, d')" and ms: "p_metrics p = Some ms"
  proof -
    from receive_metrics_cases [of fails now d p] r ms obtain as
      where d': "d' = whole_batch now (p_system p) ms as d" by auto
    have m: "map m_system_id (map (\<lambda>(k, m). metric_row_of now (metrics_seq d + 1 + int k) m) (enumerate 0 ms))
             = map md_system_id ms"
      using map_enumerate_snd [of md_system_id 0 ms]
      by (simp add: metric_row_of_def case_prod_unfold comp_def)
    have s: "map s_id (systems (upsert_system now (p_system p) d)) =
          (if si_id (p_system p) \<in> set (map s_id (systems d)) then map s_id (systems d)
           else map s_id (systems d) @ [si_id (p_system p)])"
      by (auto simp: upsert_system_def system_row_of_def comp_def intro!: map_idI [symmetric] map_cong)
    from m s show ?thesis unfolding d' by (simp add: whole_batch_fields)
  qed
  have ex: "(let payload = \<lparr>p_system = \<lparr>si_id = ''A'', si_name = ''alpha'', si_hostname = None,
                                  si_version = None, si_client_name = None\<rparr>,
                      p_metrics = Some [\<lparr>md_system_id = ''B'', md_metric_type = ''disk'',
                                         md_metric_name = ''ada0_temperature'', md_value = 40,
                                         md_unit = None, md_metadata = None\<rparr>],
                      p_alerts = Some []\<rparr>;
           after = snd (receive_metrics (\<lambda>k. False) 1000 empty_db payload)
       in map (\<lambda>s. (s_id s, s_last_seen s)) (systems after) = [(''A'', 1000)]
          \<and> map m_system_id (metrics after) = [''B''])"
    by (simp add: receive_metrics_def execute_def commit_def connect_def close_def
        upsert_system_def system_row_of_def insert_metric_def metric_row_of_def empty_db_def)
  from gen ex show ?thesis by blast
qed

theorem metric_rows_keep_their_own_system_id_witness:
  "fst (receive_metrics (\<lambda>k. False) 1000 example_db example_payload)
     = Inr \<lparr>metrics_received = 2, alerts_received = 1\<rparr>
   \<and> map md_system_id (the (p_metrics example_payload)) = [''A'', ''B'']
   \<and> map m_system_id (metrics (snd (receive_metrics (\<lambda>k. False) 1000 example_db example_payload)))
       = [''A'', ''A'', ''B'']
   \<and> map s_id (systems (snd (receive_metrics (\<lambda>k. False) 1000 example_db example_payload)))
       = [''A'']"
proof -
  have e: "fst (receive_metrics (\<lambda>k. False) 1000 example_db example_payload)
     = Inr \<lparr>metrics_received = 2, alerts_received = 1\<rparr>"
    "map md_system_id (the (p_metrics example_payload)) = [''A'', ''B'']"
    "map m_system_id (metrics example_db) = [''A'']"
    "map s_id (systems example_db) = [''A'']"
    "si_id (p_system example_payload) = ''A''"
    by code_simp+
  have p: "p_metrics example_payload = Some (the (p_metrics example_payload))"
    by (simp add: example_payload_def)
  have r: "receive_metrics (\<lambda>k. False) 1000 example_db example_payload
        = (Inr \<lparr>metrics_received = 2, alerts_received = 1\<rparr>,
           snd (receive_metrics (\<lambda>k. False) 1000 example_db example_payload))"
    using e(1) by (metis prod.collapse)
  from metric_rows_keep_their_own_system_id
         [of "\<lambda>k. False" 1000 example_db example_payload
             "\<lparr>metrics_received = 2, alerts_received = 1\<rparr>"
             "snd (receive_metrics (\<lambda>k. False) 1000 example_db example_payload)"
             "the (p_metrics example_payload)"] r p e
  show ?thesis by simp
qed
section \<open>The windowed queries and the disk view\<close>































lemma spec_latest_max:
  assumes "spec_latest rows = Some r"
  shows "r \<in> set rows \<and> (\<forall>r' \<in> set rows. (m_timestamp r', m_id r') \<le> (m_timestamp r, m_id r))"
proof -
  let ?k = "\<lambda>m. (m_timestamp m, m_id m)"
  let ?f = "\<lambda>best m. if ?k best < ?k m then m else best"
  have fold: "foldl ?f b xs \<in> set (b # xs) \<and> (\<forall>r' \<in> set (b # xs). ?k r' \<le> ?k (foldl ?f b xs))"
    for b :: metric_row and xs
  proof (induction xs arbitrary: b)
    case Nil
    then show ?case by simp
  next
    case (Cons x xs)
    have le: "?k b \<le> ?k (?f b x)" "?k x \<le> ?k (?f b x)" by auto
    from Cons.IH [of "?f b x"]
    have mem: "foldl ?f (?f b x) xs \<in> set (?f b x # xs)"
      and mx: "\<forall>r' \<in> set (?f b x # xs). ?k r' \<le> ?k (foldl ?f (?f b x) xs)" by blast+
    from mx have top: "?k (?f b x) \<le> ?k (foldl ?f (?f b x) xs)" by simp
    from mem have "foldl ?f b (x # xs) \<in> set (b # x # xs)" by auto
    moreover have "\<forall>r' \<in> set (b # x # xs). ?k r' \<le> ?k (foldl ?f b (x # xs))"
      using mx le top by (auto intro: order_trans)
    ultimately show ?case by blast
  qed
  from assms show ?thesis
    using fold by (cases rows) (auto simp: spec_latest_def)
qed




text \<open>
  The hypothesis on the ids holds in every database that the requests build from the
  empty one.
\<close>

lemma ids_increasing_whole_batch:
  assumes "ids_increasing d"
  shows "ids_increasing (whole_batch now s ms as d)"
proof -
  let ?new = "map (\<lambda>(k, m). metric_row_of now (metrics_seq d + 1 + int k) m) (enumerate 0 ms)"
  have ids: "map m_id ?new = map (\<lambda>k. metrics_seq d + 1 + int k) [0..<length ms]"
    by (simp add: metric_row_of_def case_prod_unfold comp_def enumerate_eq_zip map_fst_zip
        flip: map_map [of "\<lambda>k. metrics_seq d + 1 + int k" fst, unfolded comp_def])
  have s1: "sorted_wrt (<) (map (\<lambda>k. metrics_seq d + 1 + int k) [0..<length ms])"
    by (simp add: sorted_wrt_map sorted_wrt_iff_nth_less)
  from assms have old: "sorted_wrt (<) (map m_id (metrics d))"
    and bound: "\<forall>m \<in> set (metrics d). m_id m \<le> metrics_seq d"
    by (simp_all add: ids_increasing_def list_all_iff)
  have "sorted_wrt (<) (map m_id (metrics d) @ map m_id ?new)"
    unfolding sorted_wrt_append ids using old s1 bound by auto
  moreover have "\<forall>m \<in> set (metrics d @ ?new). m_id m \<le> metrics_seq d + int (length ms)"
    using bound by (auto simp: metric_row_of_def in_set_enumerate_eq)
  ultimately show ?thesis
    by (simp add: ids_increasing_def whole_batch_fields list_all_iff)
qed

lemma ids_increasing_handle: "ids_increasing d \<Longrightarrow> ids_increasing (handle d r)"
proof (cases r)
  case (Ingest fails now p)
  assume d: "ids_increasing d"
  from receive_metrics_cases [of fails now d p]
  have "snd (receive_metrics fails now d p) = d
        \<or> (\<exists>ms as. snd (receive_metrics fails now d p) = whole_batch now (p_system p) ms as d)"
    by (metis snd_conv)
  with d Ingest show ?thesis using ids_increasing_whole_batch by auto
next
  case (Acknowledge i)
  assume "ids_increasing d"
  with Acknowledge show ?thesis
    by (simp add: acknowledge_alert_eq ids_increasing_def set_acknowledged_def)
next
  case (CreateTicket i t)
  assume "ids_increasing d"
  with CreateTicket show ?thesis
    by (simp add: create_ticket_snd ids_increasing_def set_ticket_def)
qed

lemma metric_ids_increasing:
  "sorted_wrt (<) (map m_id (metrics (foldl handle empty_db reqs)))"
proof -
  have "ids_increasing (foldl handle empty_db reqs)"
  proof (induction reqs rule: rev_induct)
    case Nil
    then show ?case by (simp add: ids_increasing_def empty_db_def)
  next
    case (snoc r reqs)
    then show ?case by (simp add: ids_increasing_handle)
  qed
  then show ?thesis by (simp add: ids_increasing_def)
qed
section \<open>The fleet summaries\<close>




lemma healthy_tasks_clamped:
  "healthy_tasks (get_replication_summary d now) =
     max 0 (total_tasks (get_replication_summary d now)
            - failed_tasks (get_replication_summary d now)
            - stale_tasks (get_replication_summary d now))"
  by (simp add: get_replication_summary_def Let_def max_def)

lemma healthy_pools_clamped:
  "healthy_pools (get_pools_summary d now) =
     max 0 (total_pools (get_pools_summary d now)
            - degraded_pools (get_pools_summary d now)
            - needs_scrub (get_pools_summary d now))"
  by (simp add: get_pools_summary_def Let_def max_def)

text \<open>
  C5. The healthy count is the total minus the warning counter minus the failure counter
  of the kind. \<^verbatim>\<open>get_replication_summary\<close> and \<^verbatim>\<open>get_pools_summary\<close> clamp it at zero;
  \<^verbatim>\<open>get_disks_summary\<close> returns the difference as it is, and for one disk that is both
  hot and failing (\<open>hot_failing_db\<close>) reports a healthy count of -1.
\<close>

theorem disk_summary_healthy_not_clamped:
  "get_disks_summary hot_failing_db 1000000
     = \<lparr>total_disks = 1, healthy_disks = - 1, warnings = 1, critical = 1, smart_failures = 1\<rparr>
   \<and> healthy_disks (get_disks_summary d now)
       = total_disks (get_disks_summary d now) - warnings (get_disks_summary d now)
         - smart_failures (get_disks_summary d now)
   \<and> healthy_tasks (get_replication_summary d now)
       = max 0 (total_tasks (get_replication_summary d now)
                - failed_tasks (get_replication_summary d now)
                - stale_tasks (get_replication_summary d now))
   \<and> healthy_pools (get_pools_summary d now)
       = max 0 (total_pools (get_pools_summary d now)
                - degraded_pools (get_pools_summary d now)
                - needs_scrub (get_pools_summary d now))"
proof -
  have e: "get_disks_summary hot_failing_db 1000000
     = \<lparr>total_disks = 1, healthy_disks = - 1, warnings = 1, critical = 1, smart_failures = 1\<rparr>"
    by code_simp
  have h: "healthy_disks (get_disks_summary d now)
       = total_disks (get_disks_summary d now) - warnings (get_disks_summary d now)
         - smart_failures (get_disks_summary d now)"
    by (simp add: get_disks_summary_def Let_def)
  from e h healthy_tasks_clamped [of d now] healthy_pools_clamped [of d now]
  show ?thesis by (intro conjI)
qed





text \<open>System ids without an underscore never give the same concatenated text.\<close>

lemma takeWhile_before_underscore:
  "CHR ''_'' \<notin> set e \<Longrightarrow> takeWhile (\<lambda>c. c \<noteq> CHR ''_'') (e @ CHR ''_'' # a) = e"
  by (auto simp: takeWhile_append)

lemma underscore_free_ids_separate:
  assumes "\<forall>m \<in> set rows. CHR ''_'' \<notin> set (m_system_id m)"
  shows "\<forall>m \<in> set rows. \<forall>m' \<in> set rows.
           name_key m = name_key m' \<or> disk_key m = disk_key m'
           \<longrightarrow> m_system_id m = m_system_id m'"
proof (intro ballI impI)
  fix m m' assume m: "m \<in> set rows" "m' \<in> set rows"
    and k: "name_key m = name_key m' \<or> disk_key m = disk_key m'"
  from k obtain x y where "m_system_id m @ CHR ''_'' # x = m_system_id m' @ CHR ''_'' # y"
    by (auto simp: name_key_def disk_key_def)
  then have "takeWhile (\<lambda>c. c \<noteq> CHR ''_'') (m_system_id m @ CHR ''_'' # x)
           = takeWhile (\<lambda>c. c \<noteq> CHR ''_'') (m_system_id m' @ CHR ''_'' # y)" by simp
  with assms m show "m_system_id m = m_system_id m'"
    by (simp add: takeWhile_before_underscore)
qed

end
